theory Spec2Isabelle
  imports Complex_Main "HOL-Library.AList"
begin

section \<open>Data model (storage/types.ts)\<close>

text \<open>
  Strings are \<open>string\<close>. A \<open>Date\<close> is its epoch value in milliseconds (\<open>getTime()\<close>),
  an \<open>int\<close>. An optional property (\<open>userId?: string\<close>) is an \<open>option\<close>, \<open>None\<close>
  standing for \<open>undefined\<close>.
\<close>

datatype TodoStatus = Pending | Done

record Todo =
  todo_id :: string
  title :: string
  description :: string
  tags :: "string list"
  status :: TodoStatus
  todo_createdAt :: int

record Session =
  session_id :: string
  userId :: "string option"
  scratchpad :: string
  todos :: "Todo list"
  createdAt :: int
  lastModified :: int

text \<open>
  The three errors the store throws: \<open>SessionNotFoundError\<close> and \<open>UserIdMismatchError\<close>
  carry the session id of their message; the plain \<open>Error\<close> that \<open>generateUniqueId\<close>
  throws after its last attempt is \<open>IdGenerationError\<close>.
\<close>

datatype error =
    SessionNotFoundError string
  | UserIdMismatchError string
  | IdGenerationError

text \<open>
  The partial session of \<open>update\<close>, from which \<open>id\<close> and \<open>createdAt\<close> are omitted:
  each of the four remaining properties may be absent (\<open>None\<close>) or supplied.
  \<open>userId\<close> is itself optional in \<open>Session\<close>, so a supplied \<open>userId\<close> may be a
  string or \<open>undefined\<close>; the other three are supplied with a value of their type.
\<close>

record SessionUpdates =
  upd_userId :: "string option option"
  upd_scratchpad :: "string option"
  upd_todos :: "Todo list option"
  upd_lastModified :: "int option"

section \<open>The in-memory store (storage/InMemorySessionStore.ts)\<close>

text \<open>
  The \<open>Map<string, Session>\<close> is an association list in insertion order:
  \<open>Map.get\<close> is \<open>map_of\<close>, \<open>Map.set\<close> is \<open>AList.update\<close> (replace in place, or append a
  new key), \<open>Map.delete\<close> is \<open>AList.delete\<close>, \<open>Map.size\<close> is \<open>length\<close>. The keys of a
  \<open>Map\<close> are pairwise distinct (\<open>wf_store\<close>). The readonly fields set by the constructor
  are part of the state. Every operation reads the clock; the reading is the argument
  \<open>now\<close>, one instant per operation.
\<close>

record store =
  sessions :: "(string \<times> Session) list"
  ttlMs :: real
  cleanupIntervalMs :: real
  nanoidLength :: nat

record InMemorySessionStoreConfig =
  ttlHours :: "real option"
  cfg_cleanupIntervalMs :: "real option"
  cfg_nanoidLength :: "nat option"

text \<open>
  The constructor computes \<open>ttlHours * 60 * 60 * 1000\<close> in IEEE double arithmetic,
  from the left. The rounded product of two doubles is the parameter \<open>fmul\<close>; no
  property of it is assumed.
\<close>

definition new_store :: "(real \<Rightarrow> real \<Rightarrow> real) \<Rightarrow> InMemorySessionStoreConfig \<Rightarrow> store" where
  "new_store fmul config =
     (let ttlHours = (case ttlHours config of None \<Rightarrow> 24 | Some h \<Rightarrow> h) in
      \<lparr> sessions = [],
        ttlMs = fmul (fmul (fmul ttlHours 60) 60) 1000,
        cleanupIntervalMs =
          (case cfg_cleanupIntervalMs config of None \<Rightarrow> fmul (fmul 60 60) 1000 | Some i \<Rightarrow> i),
        nanoidLength = (case cfg_nanoidLength config of None \<Rightarrow> 21 | Some n \<Rightarrow> n) \<rparr>)"

definition wf_store :: "store \<Rightarrow> bool" where
  "wf_store st = distinct (map fst (sessions st))"

definition validateUserId :: "Session \<Rightarrow> string option \<Rightarrow> error + unit" where
  "validateUserId session uid =
     (if userId session \<noteq> None then
        (if uid = None \<or> userId session \<noteq> uid
         then Inl (UserIdMismatchError (session_id session))
         else Inr ())
      else Inr ())"

definition isExpired :: "store \<Rightarrow> int \<Rightarrow> Session \<Rightarrow> bool" where
  "isExpired st now session =
     (let sessionAge = now - lastModified session
      in real_of_int sessionAge > ttlMs st)"

definition get :: "string \<Rightarrow> string option \<Rightarrow> int \<Rightarrow> store \<Rightarrow> (error + Session option) \<times> store" where
  "get sessionId uid now st =
     (case map_of (sessions st) sessionId of
        None \<Rightarrow> (Inr None, st)
      | Some session \<Rightarrow>
          if isExpired st now session
          then (Inr None, st\<lparr>sessions := AList.delete sessionId (sessions st)\<rparr>)
          else (case validateUserId session uid of
                  Inl e \<Rightarrow> (Inl e, st)
                | Inr _ \<Rightarrow> (Inr (Some session), st)))"

text \<open>
  The object spread \<open>{...session, ...updates, lastModified: new Date()}\<close>: a supplied
  property replaces the session's, and \<open>lastModified\<close> is set last, whatever
  \<open>updates\<close> holds for it.
\<close>

definition applyUpdates :: "Session \<Rightarrow> SessionUpdates \<Rightarrow> int \<Rightarrow> Session" where
  "applyUpdates session updates now =
     session\<lparr> userId := (case upd_userId updates of None \<Rightarrow> userId session | Some u \<Rightarrow> u),
              scratchpad := (case upd_scratchpad updates of None \<Rightarrow> scratchpad session | Some t \<Rightarrow> t),
              todos := (case upd_todos updates of None \<Rightarrow> todos session | Some ts \<Rightarrow> ts),
              lastModified := now \<rparr>"

definition update :: "string \<Rightarrow> SessionUpdates \<Rightarrow> string option \<Rightarrow> int \<Rightarrow> store \<Rightarrow> (error + unit) \<times> store" where
  "update sessionId updates uid now st =
     (case get sessionId uid now st of
        (Inl e, st') \<Rightarrow> (Inl e, st')
      | (Inr None, st') \<Rightarrow> (Inl (SessionNotFoundError sessionId), st')
      | (Inr (Some session), st') \<Rightarrow>
          (Inr (), st'\<lparr>sessions :=
                       AList.update sessionId (applyUpdates session updates now) (sessions st')\<rparr>))"

definition delete :: "string \<Rightarrow> string option \<Rightarrow> int \<Rightarrow> store \<Rightarrow> (error + unit) \<times> store" where
  "delete sessionId uid now st =
     (case get sessionId uid now st of
        (Inl e, st') \<Rightarrow> (Inl e, st')
      | (Inr None, st') \<Rightarrow> (Inl (SessionNotFoundError sessionId), st')
      | (Inr (Some session), st') \<Rightarrow>
          (Inr (), st'\<lparr>sessions := AList.delete sessionId (sessions st')\<rparr>))"

definition exists :: "string \<Rightarrow> int \<Rightarrow> store \<Rightarrow> bool \<times> store" where
  "exists sessionId now st =
     (case map_of (sessions st) sessionId of
        None \<Rightarrow> (False, st)
      | Some session \<Rightarrow>
          if isExpired st now session
          then (False, st\<lparr>sessions := AList.delete sessionId (sessions st)\<rparr>)
          else (True, st))"

definition count :: "store \<Rightarrow> nat \<times> store" where
  "count st = (length (sessions st), st)"

text \<open>
  \<open>cleanup\<close> walks the entries of the map and deletes, by key, each one it finds expired.
\<close>

fun cleanup_loop :: "int \<Rightarrow> (string \<times> Session) list \<Rightarrow> store \<Rightarrow> nat \<Rightarrow> nat \<times> store" where
  "cleanup_loop now [] st cleanedCount = (cleanedCount, st)"
| "cleanup_loop now ((sessionId, session) # rest) st cleanedCount =
     (if isExpired st now session
      then cleanup_loop now rest
             (st\<lparr>sessions := AList.delete sessionId (sessions st)\<rparr>) (cleanedCount + 1)
      else cleanup_loop now rest st cleanedCount)"

definition cleanup :: "int \<Rightarrow> store \<Rightarrow> nat \<times> store" where
  "cleanup now st = cleanup_loop now (sessions st) st 0"

definition clear :: "store \<Rightarrow> store" where
  "clear st = st\<lparr>sessions := []\<rparr>"

text \<open>
  \<open>generateUniqueId\<close>: \<open>nanoid\<close> is the random source of the environment; \<open>draws k\<close> is
  the string its \<open>k\<close>-th call (from 0) returns during this operation. The
  \<open>do ... while\<close> loop draws, counts the attempt, throws once the count exceeds
  \<open>maxAttempts\<close>, and repeats while \<open>exists\<close> holds of the candidate.
\<close>

definition maxAttempts :: nat where
  "maxAttempts = 10"

function generateUniqueId_loop ::
  "(nat \<Rightarrow> string) \<Rightarrow> int \<Rightarrow> nat \<Rightarrow> store \<Rightarrow> (error + string) \<times> store" where
  "generateUniqueId_loop draws now attempts st =
     (let candidate = draws attempts;
          attempts' = attempts + 1
      in if attempts' > maxAttempts then (Inl IdGenerationError, st)
         else (case exists candidate now st of
                 (True, st') \<Rightarrow> generateUniqueId_loop draws now attempts' st'
               | (False, st') \<Rightarrow> (Inr candidate, st')))"
  by pat_completeness auto
termination
  by (relation "measure (\<lambda>(draws, now, attempts, st). maxAttempts - attempts)") auto

definition generateUniqueId :: "(nat \<Rightarrow> string) \<Rightarrow> int \<Rightarrow> store \<Rightarrow> (error + string) \<times> store" where
  "generateUniqueId draws now st = generateUniqueId_loop draws now 0 st"

definition create :: "(nat \<Rightarrow> string) \<Rightarrow> string option \<Rightarrow> int \<Rightarrow> store \<Rightarrow> (error + Session) \<times> store" where
  "create draws uid now st =
     (case generateUniqueId draws now st of
        (Inl e, st') \<Rightarrow> (Inl e, st')
      | (Inr new_id, st') \<Rightarrow>
          (let session = \<lparr> session_id = new_id, userId = uid, scratchpad = [],
                           todos = [], createdAt = now, lastModified = now \<rparr>
           in (Inr session, st'\<lparr>sessions := AList.update new_id session (sessions st')\<rparr>)))"


section \<open>Vocabulary of the properties\<close>

text \<open>
  An entry of the map is expired at \<open>now\<close> when \<open>isExpired\<close> holds of its session; an id
  is live when it maps to a session that is not expired. \<open>live_count\<close> and
  \<open>expired_count\<close> count the entries of either kind.
\<close>

definition expired_entry :: "store \<Rightarrow> int \<Rightarrow> string \<times> Session \<Rightarrow> bool" where
  "expired_entry st now e = isExpired st now (snd e)"

definition is_live :: "store \<Rightarrow> int \<Rightarrow> string \<Rightarrow> bool" where
  "is_live st now k =
     (case map_of (sessions st) k of None \<Rightarrow> False | Some s \<Rightarrow> \<not> isExpired st now s)"

definition live_count :: "store \<Rightarrow> int \<Rightarrow> nat" where
  "live_count st now = length (filter (\<lambda>e. \<not> expired_entry st now e) (sessions st))"

definition expired_count :: "store \<Rightarrow> int \<Rightarrow> nat" where
  "expired_count st now = length (filter (expired_entry st now) (sessions st))"

subsection \<open>Sequences of store operations\<close>

text \<open>
  A call of the store's interface, and a run of timed calls from a given store. Only the
  store after each call matters to \<open>run\<close>; results are what the operations above return.
\<close>

datatype store_op =
    Create "nat \<Rightarrow> string" "string option"
  | Get string "string option"
  | Update string SessionUpdates "string option"
  | Delete string "string option"
  | Exists string
  | Count
  | Cleanup
  | Clear

fun apply_op :: "store_op \<Rightarrow> int \<Rightarrow> store \<Rightarrow> store" where
  "apply_op (Create draws uid) now st = snd (create draws uid now st)"
| "apply_op (Get sessionId uid) now st = snd (get sessionId uid now st)"
| "apply_op (Update sessionId updates uid) now st = snd (update sessionId updates uid now st)"
| "apply_op (Delete sessionId uid) now st = snd (delete sessionId uid now st)"
| "apply_op (Exists sessionId) now st = snd (exists sessionId now st)"
| "apply_op Count now st = snd (count st)"
| "apply_op Cleanup now st = snd (cleanup now st)"
| "apply_op Clear now st = clear st"

fun run :: "(int \<times> store_op) list \<Rightarrow> store \<Rightarrow> store" where
  "run [] st = st"
| "run ((now, x) # rest) st = run rest (apply_op x now st)"





section \<open>The tabular encoder (utils/tonl.ts)\<close>























section \<open>Concrete inputs\<close>

definition ex_owned :: Session where
  "ex_owned = \<lparr> session_id = ''s1'', userId = Some ''u1'', scratchpad = ''x'',
                 todos = [], createdAt = 0, lastModified = 0 \<rparr>"

definition ex_open :: Session where
  "ex_open = \<lparr> session_id = ''s2'', userId = None, scratchpad = ''notes'',
                todos = [], createdAt = 0, lastModified = 400 \<rparr>"

definition ex_store :: store where
  "ex_store = \<lparr> sessions = [(''s1'', ex_owned), (''s2'', ex_open)],
                 ttlMs = 1000, cleanupIntervalMs = 3600000, nanoidLength = 21 \<rparr>"

definition ex_updates :: SessionUpdates where
  "ex_updates = \<lparr> upd_userId = None, upd_scratchpad = Some ''y'',
                   upd_todos = None, upd_lastModified = None \<rparr>"




definition ex_draws :: "nat \<Rightarrow> string" where
  "ex_draws k = (if k = 0 then ''s1'' else if k = 1 then ''s2'' else ''s3'')"

definition ex_stuck :: "nat \<Rightarrow> string" where
  "ex_stuck k = ''s1''"










declare generateUniqueId_loop.simps [simp del]

section \<open>Lemmas about the store\<close>

lemma isExpired_sessions [simp]: "isExpired (st\<lparr>sessions := xs\<rparr>) now s = isExpired st now s"
  by (simp add: isExpired_def)

lemma expired_entry_sessions [simp]:
  "expired_entry (st\<lparr>sessions := xs\<rparr>) now = expired_entry st now"
  by (rule ext) (simp add: expired_entry_def)

lemma get_mismatch_state:
  "fst (get sessionId uid now st) = Inl e \<Longrightarrow> snd (get sessionId uid now st) = st"
  by (simp add: get_def split: option.splits if_splits sum.splits)

lemma get_error_is_mismatch:
  "fst (get sessionId uid now st) = Inl e \<Longrightarrow> \<exists>x. e = UserIdMismatchError x"
  by (auto simp: get_def validateUserId_def split: option.splits if_splits sum.splits)

lemma get_store_cases:
  "snd (get k uid now st) = st \<or>
   snd (get k uid now st) = st\<lparr>sessions := AList.delete k (sessions st)\<rparr>"
  by (simp add: get_def split: option.splits sum.splits)

lemma exists_eq:
  "exists k now st =
     (if is_live st now k then (True, st)
      else (False, st\<lparr>sessions := AList.delete k (sessions st)\<rparr>))"
proof (cases "map_of (sessions st) k")
  case None
  then have "k \<notin> fst ` set (sessions st)"
    by (simp add: map_of_eq_None_iff)
  then have "AList.delete k (sessions st) = sessions st" by simp
  with None show ?thesis by (simp add: exists_def is_live_def)
next
  case (Some s)
  then show ?thesis by (simp add: exists_def is_live_def)
qed

subsection \<open>The sweep as a filter\<close>

lemma cleanup_loop_eq:
  "cleanup_loop now es st n =
     (n + length (filter (expired_entry st now) es),
      st\<lparr>sessions := filter (\<lambda>e. fst e \<notin> fst ` set (filter (expired_entry st now) es)) (sessions st)\<rparr>)"
proof (induction es arbitrary: st n)
  case Nil
  then show ?case by simp
next
  case (Cons e es)
  obtain k s where e: "e = (k, s)" by (cases e)
  show ?case
  proof (cases "isExpired st now s")
    case True
    have ee: "expired_entry (st\<lparr>sessions := AList.delete k (sessions st)\<rparr>) now = expired_entry st now"
      by (rule ext) (simp add: expired_entry_def)
    show ?thesis
    proof -
      have "filter (\<lambda>x. fst x \<notin> fst ` set (filter (expired_entry st now) es))
              (AList.delete k (sessions st)) =
            filter (\<lambda>x. fst x \<notin> fst ` set (filter (expired_entry st now) (e # es)))
              (sessions st)"
        using True by (auto simp: e expired_entry_def AList.delete_eq intro!: filter_cong)
      then show ?thesis
        using True by (simp add: e Cons.IH ee) (simp add: expired_entry_def)
    qed
  next
    case False
    then show ?thesis by (simp add: e Cons.IH expired_entry_def)
  qed
qed

lemma filter_keys_distinct:
  assumes "distinct (map fst xs)"
  shows "filter (\<lambda>e. fst e \<notin> fst ` set (filter P xs)) xs = filter (\<lambda>e. \<not> P e) xs"
proof (rule filter_cong [OF refl])
  fix e assume m: "e \<in> set xs"
  have "fst e \<in> fst ` set (filter P xs) \<longleftrightarrow> P e"
  proof
    assume "fst e \<in> fst ` set (filter P xs)"
    then obtain e' where e': "e' \<in> set xs" "P e'" "fst e' = fst e" by auto
    from assms m e' have "e' = e"
      by (metis eq_key_imp_eq_value prod.collapse)
    with e' show "P e" by simp
  next
    assume "P e" with m show "fst e \<in> fst ` set (filter P xs)" by auto
  qed
  then show "(fst e \<notin> fst ` set (filter P xs)) = (\<not> P e)" by simp
qed

lemma cleanup_eq:
  "wf_store st \<Longrightarrow> cleanup now st =
     (length (filter (expired_entry st now) (sessions st)),
      st\<lparr>sessions := filter (\<lambda>e. \<not> expired_entry st now e) (sessions st)\<rparr>)"
  unfolding cleanup_def cleanup_loop_eq wf_store_def
  by (simp only: filter_keys_distinct) simp

lemma lookup_kept_entries:
  assumes "distinct (map fst entries)"
  shows "map_of (filter keep entries) key =
           Option.bind (map_of entries key) (\<lambda>s. if keep (key, s) then Some s else None)"
  using assms
proof (induction entries)
  case Nil
  then show ?case by simp
next
  case (Cons e entries)
  obtain k' v' where e: "e = (k', v')" by (cases e)
  from Cons.prems have d: "distinct (map fst entries)" and n: "k' \<notin> fst ` set entries"
    by (auto simp: e)
  from n have none: "map_of entries k' = None"
    by (simp add: map_of_eq_None_iff)
  show ?case
    using Cons.IH [OF d] none by (auto simp: e split: option.splits)
qed


lemma cleanup_lookup:
  "wf_store st \<Longrightarrow>
   map_of (sessions (snd (cleanup now st))) k =
     (case map_of (sessions st) k of None \<Rightarrow> None
      | Some s \<Rightarrow> if isExpired st now s then None else Some s)"
  by (simp add: cleanup_eq wf_store_def lookup_kept_entries expired_entry_def
           split: option.splits)

lemma wf_cleanup: "wf_store st \<Longrightarrow> wf_store (snd (cleanup now st))"
  by (simp add: cleanup_eq) (simp add: wf_store_def distinct_map_filter)

subsection \<open>The id generator\<close>

lemma loop_exhausted:
  "\<forall>i. a \<le> i \<and> i < maxAttempts \<longrightarrow> is_live st now (draws i) \<Longrightarrow>
   generateUniqueId_loop draws now a st = (Inl IdGenerationError, st)"
proof (induction "maxAttempts - a" arbitrary: a)
  case 0
  then show ?case
    by (subst generateUniqueId_loop.simps) simp
next
  case (Suc n)
  then have lt: "a < maxAttempts" by simp
  with Suc.prems have live: "is_live st now (draws a)" by simp
  have "generateUniqueId_loop draws now (a + 1) st = (Inl IdGenerationError, st)"
    using Suc.hyps(2) Suc.prems by (intro Suc.hyps(1)) auto
  with lt live show ?case
    by (subst generateUniqueId_loop.simps) (simp add: exists_eq Let_def)
qed

lemma loop_found:
  "a \<le> j \<Longrightarrow> j < maxAttempts \<Longrightarrow>
   \<forall>i. a \<le> i \<and> i < j \<longrightarrow> is_live st now (draws i) \<Longrightarrow>
   \<not> is_live st now (draws j) \<Longrightarrow>
   generateUniqueId_loop draws now a st =
     (Inr (draws j), st\<lparr>sessions := AList.delete (draws j) (sessions st)\<rparr>)"
proof (induction "j - a" arbitrary: a)
  case 0
  then have "a = j" by simp
  with 0 show ?case
    by (subst generateUniqueId_loop.simps) (simp add: exists_eq Let_def)
next
  case (Suc n)
  then have lt: "a < j" by simp
  with Suc.prems have live: "is_live st now (draws a)" by simp
  have "generateUniqueId_loop draws now (a + 1) st =
          (Inr (draws j), st\<lparr>sessions := AList.delete (draws j) (sessions st)\<rparr>)"
    using Suc.hyps(2) Suc.prems lt by (intro Suc.hyps(1)) auto
  with lt live Suc.prems(2) show ?case
    by (subst generateUniqueId_loop.simps) (simp add: exists_eq Let_def)
qed

lemma generateUniqueId_cases:
  "generateUniqueId draws now st = (Inl IdGenerationError, st) \<or>
   (\<exists>k. generateUniqueId draws now st =
          (Inr k, st\<lparr>sessions := AList.delete k (sessions st)\<rparr>))"
proof (cases "\<forall>i. 0 \<le> i \<and> i < maxAttempts \<longrightarrow> is_live st now (draws i)")
  case True
  then show ?thesis
    unfolding generateUniqueId_def by (intro disjI1 loop_exhausted)
next
  case False
  define j where "j = (LEAST i. \<not> is_live st now (draws i))"
  from False obtain i where i: "i < maxAttempts" "\<not> is_live st now (draws i)" by blast
  have nj: "\<not> is_live st now (draws j)"
    unfolding j_def using i(2) by (rule LeastI)
  have "j \<le> i" unfolding j_def using i(2) by (rule Least_le)
  with i(1) have j10: "j < maxAttempts" by simp
  have before: "\<forall>i. 0 \<le> i \<and> i < j \<longrightarrow> is_live st now (draws i)"
    unfolding j_def using not_less_Least by blast
  have "generateUniqueId_loop draws now 0 st =
          (Inr (draws j), st\<lparr>sessions := AList.delete (draws j) (sessions st)\<rparr>)"
    using j10 before nj by (intro loop_found) simp_all
  then show ?thesis
    unfolding generateUniqueId_def by blast
qed

subsection \<open>Owners along a run\<close>










subsection \<open>Who may access a live session\<close>



section \<open>Lemmas about the encoder\<close>























subsection \<open>Distinct keys are an invariant\<close>

lemma wf_get: "wf_store st \<Longrightarrow> wf_store (snd (get k uid now st))"
  using get_store_cases [of k uid now st]
  by (auto simp: wf_store_def AList.distinct_delete)

lemma wf_exists: "wf_store st \<Longrightarrow> wf_store (snd (exists k now st))"
  by (simp add: exists_eq wf_store_def AList.distinct_delete)

lemma wf_update: "wf_store st \<Longrightarrow> wf_store (snd (update k updates uid now st))"
  by (auto simp: update_def get_def wf_store_def AList.distinct_delete AList.distinct_update
           split: option.splits sum.splits)

lemma wf_delete: "wf_store st \<Longrightarrow> wf_store (snd (delete k uid now st))"
  by (auto simp: delete_def get_def wf_store_def AList.distinct_delete
           split: option.splits sum.splits)

lemma wf_create: "wf_store st \<Longrightarrow> wf_store (snd (create draws uid now st))"
  using generateUniqueId_cases [of draws now st]
  by (auto simp: create_def Let_def wf_store_def AList.distinct_delete AList.distinct_update)

lemma wf_apply_op: "wf_store st \<Longrightarrow> wf_store (apply_op x now st)"
  by (cases x)
     (simp_all add: wf_get wf_exists wf_update wf_delete wf_create wf_cleanup count_def,
      simp add: clear_def wf_store_def)

lemma wf_run: "wf_store st \<Longrightarrow> wf_store (run ops st)"
  by (induction ops arbitrary: st) (auto simp: wf_apply_op)

lemma wf_reachable: "wf_store (run ops (new_store fmul config))"
  by (rule wf_run) (simp add: wf_store_def new_store_def Let_def)

subsection \<open>Pipes and the single-todo rendering\<close>




subsection \<open>Rows, lines and splitting\<close>











section \<open>Facts about the concrete inputs\<close>

lemma ex_lookup:
  "map_of (sessions ex_store) ''s1'' = Some ex_owned"
  "map_of (sessions ex_store) ''s2'' = Some ex_open"
  "map_of (sessions ex_store) ''s3'' = None"
  by (simp_all add: ex_store_def)

lemma ex_wf: "wf_store ex_store"
  by (simp add: wf_store_def ex_store_def)

lemma ex_expiry:
  "\<not> isExpired ex_store 500 ex_owned" "\<not> isExpired ex_store 500 ex_open"
  "\<not> isExpired ex_store 1000 ex_owned" "isExpired ex_store 1001 ex_owned"
  "isExpired ex_store 1200 ex_owned" "\<not> isExpired ex_store 1200 ex_open"
  by (simp_all add: isExpired_def ex_store_def ex_owned_def ex_open_def)

lemma ex_live:
  "is_live ex_store 500 ''s1''" "is_live ex_store 500 ''s2''" "\<not> is_live ex_store 500 ''s3''"
  "\<not> is_live ex_store 1200 ''s1''"
  by (simp_all add: is_live_def ex_lookup ex_expiry)















section \<open>The claims\<close>

text \<open>
  C1 (as amended). A record of the store is returned by get while its age
  \<open>now - lastModified\<close> is at most the TTL (to a caller who passes the identity check;
  never as not-found), and is not-found once its age exceeds the TTL. At every instant
  \<open>exists\<close> and the sweep classify the record the same way: the sweep keeps it exactly
  when get does not report it as not-found.
\<close>

theorem expiry_lazy_eager_agree:
  assumes "map_of (sessions st) sessionId = Some s"
  shows "(real_of_int (now - lastModified s) \<le> ttlMs st \<longrightarrow>
            fst (get sessionId uid now st) \<noteq> Inr None \<and>
            (userId s = None \<or> userId s = uid \<longrightarrow> get sessionId uid now st = (Inr (Some s), st)) \<and>
            fst (exists sessionId now st) \<and>
            (wf_store st \<longrightarrow> map_of (sessions (snd (cleanup now st))) sessionId = Some s)) \<and>
         (real_of_int (now - lastModified s) > ttlMs st \<longrightarrow>
            fst (get sessionId uid now st) = Inr None \<and>
            \<not> fst (exists sessionId now st) \<and>
            (wf_store st \<longrightarrow> map_of (sessions (snd (cleanup now st))) sessionId = None))"
  using assms
  by (auto simp: get_def exists_def cleanup_lookup isExpired_def validateUserId_def
           split: sum.splits)

theorem expiry_boundary_counterexample:
  "real_of_int (1000 - lastModified ex_owned) \<ge> ttlMs ex_store \<and>
   fst (get ''s1'' (Some ''u1'') 1000 ex_store) = Inr (Some ex_owned)"
  by (simp add: get_def ex_lookup ex_expiry validateUserId_def)
     (simp add: ex_store_def ex_owned_def)

theorem expiry_lazy_eager_agree_witness:
  "real_of_int (1000 - lastModified ex_owned) \<le> ttlMs ex_store \<and>
   get ''s1'' (Some ''u1'') 1000 ex_store = (Inr (Some ex_owned), ex_store) \<and>
   fst (exists ''s1'' 1000 ex_store) \<and>
   map_of (sessions (snd (cleanup 1000 ex_store))) ''s1'' = Some ex_owned \<and>
   real_of_int (1001 - lastModified ex_owned) > ttlMs ex_store \<and>
   fst (get ''s1'' (Some ''u1'') 1001 ex_store) = Inr None \<and>
   \<not> fst (exists ''s1'' 1001 ex_store) \<and>
   map_of (sessions (snd (cleanup 1001 ex_store))) ''s1'' = None"
proof -
  have a: "real_of_int (1000 - lastModified ex_owned) \<le> ttlMs ex_store"
    by (simp add: ex_store_def ex_owned_def)
  have b: "real_of_int (1001 - lastModified ex_owned) > ttlMs ex_store"
    by (simp add: ex_store_def ex_owned_def)
  have u: "userId ex_owned = None \<or> userId ex_owned = Some ''u1''"
    by (simp add: ex_owned_def)
  from expiry_lazy_eager_agree [OF ex_lookup(1), of 1000 "Some ''u1''"]
       expiry_lazy_eager_agree [OF ex_lookup(1), of 1001 "Some ''u1''"]
       a b u ex_wf
  show ?thesis by blast
qed




text \<open>
  C3. For an id that is absent or maps to an expired record, get returns not-found, and
  the store afterwards no longer holds the id (the expired record is removed, every other
  id is as before); update and delete raise \<open>SessionNotFoundError\<close>. The results do
  not depend on whether the id was absent or expired, nor on the caller's identity.
\<close>

theorem not_live_is_not_found:
  assumes "\<not> is_live st now sessionId"
  shows "get sessionId uid now st =
           (Inr None, st\<lparr>sessions := AList.delete sessionId (sessions st)\<rparr>) \<and>
         map_of (sessions (snd (get sessionId uid now st))) sessionId = None \<and>
         (\<forall>k. k \<noteq> sessionId \<longrightarrow>
              map_of (sessions (snd (get sessionId uid now st))) k = map_of (sessions st) k) \<and>
         fst (update sessionId updates uid now st) = Inl (SessionNotFoundError sessionId) \<and>
         fst (delete sessionId uid now st) = Inl (SessionNotFoundError sessionId)"
proof -
  have g: "get sessionId uid now st =
           (Inr None, st\<lparr>sessions := AList.delete sessionId (sessions st)\<rparr>)"
  proof (cases "map_of (sessions st) sessionId")
    case None
    then have "sessionId \<notin> fst ` set (sessions st)"
      by (simp add: map_of_eq_None_iff)
    then have "AList.delete sessionId (sessions st) = sessions st" by simp
    with None show ?thesis by (simp add: get_def)
  next
    case (Some s)
    with assms show ?thesis by (simp add: get_def is_live_def)
  qed
  then show ?thesis
    by (simp add: update_def delete_def AList.delete_conv')
qed

theorem not_live_is_not_found_witness:
  "fst (get ''s1'' (Some ''u1'') 1200 ex_store) = Inr None \<and>
   map_of (sessions (snd (get ''s1'' (Some ''u1'') 1200 ex_store))) ''s1'' = None \<and>
   map_of (sessions (snd (get ''s1'' (Some ''u1'') 1200 ex_store))) ''s2'' = Some ex_open \<and>
   fst (update ''s1'' ex_updates (Some ''u1'') 1200 ex_store) = Inl (SessionNotFoundError ''s1'') \<and>
   fst (delete ''s1'' (Some ''u1'') 1200 ex_store) = Inl (SessionNotFoundError ''s1'') \<and>
   fst (get ''s3'' None 500 ex_store) = Inr None \<and>
   fst (update ''s3'' ex_updates None 500 ex_store) = Inl (SessionNotFoundError ''s3'') \<and>
   fst (delete ''s3'' None 500 ex_store) = Inl (SessionNotFoundError ''s3'')"
proof -
  note expired = not_live_is_not_found [OF ex_live(4), of "Some ''u1''" ex_updates]
  note absent = not_live_is_not_found [OF ex_live(3), of None ex_updates]
  have "fst (get ''s1'' (Some ''u1'') 1200 ex_store) = Inr None"
    and "fst (get ''s3'' None 500 ex_store) = Inr None"
    using expired [THEN conjunct1] absent [THEN conjunct1] by simp_all
  moreover note expired [THEN conjunct2, THEN conjunct1]
  moreover have "map_of (sessions (snd (get ''s1'' (Some ''u1'') 1200 ex_store))) ''s2'' =
                   Some ex_open"
    using expired [THEN conjunct2, THEN conjunct2, THEN conjunct1, rule_format, of "''s2''"]
    by (simp add: ex_lookup)
  moreover note expired [THEN conjunct2, THEN conjunct2, THEN conjunct2]
  moreover note absent [THEN conjunct2, THEN conjunct2, THEN conjunct2]
  ultimately show ?thesis
    by (intro conjI) simp_all
qed

text \<open>
  C4 (as amended). count returns the number of records the store holds, the expired ones
  that have not been evicted or swept included, and leaves the store as it is; right
  after a sweep at \<open>now\<close> it is the number of records that are not expired at \<open>now\<close>.
\<close>

theorem count_is_map_size:
  "fst (count st) = live_count st now + expired_count st now \<and>
   snd (count st) = st \<and>
   (wf_store st \<longrightarrow> fst (count (snd (cleanup now st))) = live_count st now)"
  using sum_length_filter_compl [of "expired_entry st now" "sessions st"]
  by (auto simp: count_def live_count_def expired_count_def cleanup_eq)

theorem count_counts_expired_counterexample:
  "fst (count ex_store) = 2 \<and> live_count ex_store 1200 = 1"
  by (simp add: count_def live_count_def expired_entry_def isExpired_def
        ex_store_def ex_owned_def ex_open_def)

theorem count_is_map_size_witness:
  "fst (count ex_store) = live_count ex_store 1200 + expired_count ex_store 1200 \<and>
   snd (count ex_store) = ex_store \<and>
   fst (count (snd (cleanup 1200 ex_store))) = live_count ex_store 1200"
  using count_is_map_size [of ex_store 1200] ex_wf by blast




text \<open>
  C6. create fails with the id-generation error exactly when the first ten candidate ids
  all collide with live records of the store. Otherwise it returns a session whose id is
  the first candidate that is not the id of a live record, with the supplied owner (none
  if none was supplied), an empty scratchpad, no todos, and \<open>createdAt\<close> and
  \<open>lastModified\<close> both equal to the current time; the store then holds that session
  under that id.
\<close>

theorem create_fresh_session:
  "((\<forall>i<10. is_live st now (draws i)) \<longrightarrow>
      fst (create draws uid now st) = Inl IdGenerationError) \<and>
   ((\<exists>i<10. \<not> is_live st now (draws i)) \<longrightarrow>
      (\<exists>session. fst (create draws uid now st) = Inr session \<and>
         \<not> is_live st now (session_id session) \<and>
         (\<exists>j<10. session_id session = draws j \<and> (\<forall>i<j. is_live st now (draws i))) \<and>
         userId session = uid \<and> scratchpad session = [] \<and> todos session = [] \<and>
         createdAt session = now \<and> lastModified session = now \<and>
         map_of (sessions (snd (create draws uid now st))) (session_id session) = Some session))"
proof (intro conjI impI)
  assume "\<forall>i<10. is_live st now (draws i)"
  then have "generateUniqueId_loop draws now 0 st = (Inl IdGenerationError, st)"
    by (intro loop_exhausted) (simp add: maxAttempts_def)
  then show "fst (create draws uid now st) = Inl IdGenerationError"
    by (simp add: create_def generateUniqueId_def)
next
  assume ex: "\<exists>i<10. \<not> is_live st now (draws i)"
  define j where "j = (LEAST i. \<not> is_live st now (draws i))"
  from ex obtain i where i: "i < 10" "\<not> is_live st now (draws i)" by blast
  have nj: "\<not> is_live st now (draws j)"
    unfolding j_def using i(2) by (rule LeastI)
  have "j \<le> i" unfolding j_def using i(2) by (rule Least_le)
  with i(1) have j10: "j < 10" by simp
  have before: "\<forall>i<j. is_live st now (draws i)"
    unfolding j_def using not_less_Least by blast
  have g: "generateUniqueId_loop draws now 0 st =
          (Inr (draws j), st\<lparr>sessions := AList.delete (draws j) (sessions st)\<rparr>)"
    using j10 before nj by (intro loop_found) (simp_all add: maxAttempts_def)
  define session where
    "session = \<lparr> session_id = draws j, userId = uid, scratchpad = [],
                  todos = [], createdAt = now, lastModified = now \<rparr>"
  have c: "create draws uid now st =
             (Inr session, st\<lparr>sessions := AList.update (draws j) session
                                           (AList.delete (draws j) (sessions st))\<rparr>)"
    by (simp add: create_def generateUniqueId_def g Let_def session_def)
  have "fst (create draws uid now st) = Inr session \<and>
         \<not> is_live st now (session_id session) \<and>
         (\<exists>j<10. session_id session = draws j \<and> (\<forall>i<j. is_live st now (draws i))) \<and>
         userId session = uid \<and> scratchpad session = [] \<and> todos session = [] \<and>
         createdAt session = now \<and> lastModified session = now \<and>
         map_of (sessions (snd (create draws uid now st))) (session_id session) = Some session"
    using nj j10 before by (auto simp: c AList.update_conv' session_def)
  then show "\<exists>session. fst (create draws uid now st) = Inr session \<and>
         \<not> is_live st now (session_id session) \<and>
         (\<exists>j<10. session_id session = draws j \<and> (\<forall>i<j. is_live st now (draws i))) \<and>
         userId session = uid \<and> scratchpad session = [] \<and> todos session = [] \<and>
         createdAt session = now \<and> lastModified session = now \<and>
         map_of (sessions (snd (create draws uid now st))) (session_id session) = Some session"
    by (rule exI)
qed

theorem create_fresh_session_witness:
  "fst (create ex_stuck None 500 ex_store) = Inl IdGenerationError \<and>
   fst (create ex_draws (Some ''u9'') 500 ex_store) =
     Inr \<lparr> session_id = ''s3'', userId = Some ''u9'', scratchpad = [], todos = [],
            createdAt = 500, lastModified = 500 \<rparr>"
proof -
  have h1: "\<forall>i<10. is_live ex_store 500 (ex_stuck i)"
    by (simp add: ex_stuck_def ex_live)
  have h2: "\<exists>i<10. \<not> is_live ex_store 500 (ex_draws i)"
  proof (intro exI conjI)
    show "(2::nat) < 10" by simp
    show "\<not> is_live ex_store 500 (ex_draws 2)" by (simp add: ex_draws_def ex_live)
  qed
  note stuck = create_fresh_session [of ex_store 500 ex_stuck None, THEN conjunct1, THEN mp, OF h1]
  from create_fresh_session [of ex_store 500 ex_draws "Some ''u9''", THEN conjunct2, THEN mp, OF h2]
  obtain session j where s:
    "fst (create ex_draws (Some ''u9'') 500 ex_store) = Inr session"
    "\<not> is_live ex_store 500 (session_id session)"
    "session_id session = ex_draws j"
    "userId session = Some ''u9''" "scratchpad session = []" "todos session = []"
    "createdAt session = 500" "lastModified session = 500"
    by blast
  from s(2,3) have "session_id session = ''s3''"
    by (auto simp: ex_draws_def ex_live split: if_splits)
  with s have "session = \<lparr> session_id = ''s3'', userId = Some ''u9'', scratchpad = [], todos = [],
            createdAt = 500, lastModified = 500 \<rparr>"
    by (cases session) simp
  with s(1) stuck show ?thesis by simp
qed

text \<open>
  C7. A successful update leaves the session's \<open>id\<close> and \<open>createdAt\<close> as they were,
  sets \<open>lastModified\<close> to the current time, replaces exactly the supplied fields, and
  changes no record under another id, adding and removing none. A successful get returns
  the stored record as it is and leaves the store unchanged, \<open>lastModified\<close> included.
\<close>

theorem update_get_frame:
  "(fst (update sessionId updates uid now st) = Inr () \<longrightarrow>
      (\<exists>s s'. map_of (sessions st) sessionId = Some s \<and>
         map_of (sessions (snd (update sessionId updates uid now st))) sessionId = Some s' \<and>
         session_id s' = session_id s \<and> createdAt s' = createdAt s \<and>
         lastModified s' = now \<and>
         userId s' = (case upd_userId updates of None \<Rightarrow> userId s | Some u \<Rightarrow> u) \<and>
         scratchpad s' = (case upd_scratchpad updates of None \<Rightarrow> scratchpad s | Some t \<Rightarrow> t) \<and>
         todos s' = (case upd_todos updates of None \<Rightarrow> todos s | Some ts \<Rightarrow> ts)) \<and>
      (\<forall>k. k \<noteq> sessionId \<longrightarrow>
         map_of (sessions (snd (update sessionId updates uid now st))) k = map_of (sessions st) k) \<and>
      map fst (sessions (snd (update sessionId updates uid now st))) = map fst (sessions st)) \<and>
   (\<forall>s. fst (get sessionId uid now st) = Inr (Some s) \<longrightarrow>
      snd (get sessionId uid now st) = st \<and> map_of (sessions st) sessionId = Some s)"
proof (intro conjI impI allI)
  assume ok: "fst (update sessionId updates uid now st) = Inr ()"
  then obtain s where s: "get sessionId uid now st = (Inr (Some s), st)"
    by (auto simp: update_def get_def split: option.splits if_splits sum.splits)
  then have m: "map_of (sessions st) sessionId = Some s"
    by (auto simp: get_def split: option.splits if_splits sum.splits)
  have u: "snd (update sessionId updates uid now st) =
           st\<lparr>sessions := AList.update sessionId (applyUpdates s updates now) (sessions st)\<rparr>"
    using s by (simp add: update_def)
  show "\<exists>s s'. map_of (sessions st) sessionId = Some s \<and>
         map_of (sessions (snd (update sessionId updates uid now st))) sessionId = Some s' \<and>
         session_id s' = session_id s \<and> createdAt s' = createdAt s \<and>
         lastModified s' = now \<and>
         userId s' = (case upd_userId updates of None \<Rightarrow> userId s | Some u \<Rightarrow> u) \<and>
         scratchpad s' = (case upd_scratchpad updates of None \<Rightarrow> scratchpad s | Some t \<Rightarrow> t) \<and>
         todos s' = (case upd_todos updates of None \<Rightarrow> todos s | Some ts \<Rightarrow> ts)"
    using m by (simp add: u AList.update_conv' applyUpdates_def)
  show "map_of (sessions (snd (update sessionId updates uid now st))) k = map_of (sessions st) k"
    if "k \<noteq> sessionId" for k
    using that by (simp add: u AList.update_conv')
  from m have "sessionId \<in> set (map fst (sessions st))"
    by (metis map_of_eq_None_iff option.distinct(1) set_map)
  then show "map fst (sessions (snd (update sessionId updates uid now st))) = map fst (sessions st)"
    by (simp add: u AList.update_keys)
next
  fix s assume "fst (get sessionId uid now st) = Inr (Some s)"
  then have "snd (get sessionId uid now st) = st \<and> map_of (sessions st) sessionId = Some s"
    by (auto simp: get_def split: option.splits if_splits sum.splits)
  then show "snd (get sessionId uid now st) = st" and "map_of (sessions st) sessionId = Some s"
    by simp_all
qed

theorem update_get_frame_witness:
  "fst (update ''s2'' ex_updates None 500 ex_store) = Inr () \<and>
   map_of (sessions (snd (update ''s2'' ex_updates None 500 ex_store))) ''s2'' =
     Some \<lparr> session_id = ''s2'', userId = None, scratchpad = ''y'', todos = [],
            createdAt = 0, lastModified = 500 \<rparr> \<and>
   map_of (sessions (snd (update ''s2'' ex_updates None 500 ex_store))) ''s1'' = Some ex_owned \<and>
   map fst (sessions (snd (update ''s2'' ex_updates None 500 ex_store))) = [''s1'', ''s2''] \<and>
   fst (get ''s2'' None 500 ex_store) = Inr (Some ex_open) \<and>
   snd (get ''s2'' None 500 ex_store) = ex_store"
proof -
  have ok: "fst (update ''s2'' ex_updates None 500 ex_store) = Inr ()"
    by (simp add: update_def get_def ex_lookup ex_expiry validateUserId_def)
       (simp add: ex_open_def)
  have g: "fst (get ''s2'' None 500 ex_store) = Inr (Some ex_open)"
    by (simp add: get_def ex_lookup ex_expiry validateUserId_def) (simp add: ex_open_def)
  note t = update_get_frame [of "''s2''" ex_updates None 500 ex_store]
  from t ok obtain s s' where s:
    "map_of (sessions ex_store) ''s2'' = Some s"
    "map_of (sessions (snd (update ''s2'' ex_updates None 500 ex_store))) ''s2'' = Some s'"
    "session_id s' = session_id s" "createdAt s' = createdAt s" "lastModified s' = 500"
    "userId s' = (case upd_userId ex_updates of None \<Rightarrow> userId s | Some u \<Rightarrow> u)"
    "scratchpad s' = (case upd_scratchpad ex_updates of None \<Rightarrow> scratchpad s | Some t \<Rightarrow> t)"
    "todos s' = (case upd_todos ex_updates of None \<Rightarrow> todos s | Some ts \<Rightarrow> ts)"
    by blast
  from s(1) have "s = ex_open" by (simp add: ex_lookup)
  with s have "s' = \<lparr> session_id = ''s2'', userId = None, scratchpad = ''y'', todos = [],
            createdAt = 0, lastModified = 500 \<rparr>"
    by (cases s') (simp add: ex_open_def ex_updates_def)
  moreover from t ok have
    "map_of (sessions (snd (update ''s2'' ex_updates None 500 ex_store))) ''s1'' =
       map_of (sessions ex_store) ''s1''"
    "map fst (sessions (snd (update ''s2'' ex_updates None 500 ex_store))) =
       map fst (sessions ex_store)"
    by simp_all
  moreover from t g have "snd (get ''s2'' None 500 ex_store) = ex_store" by blast
  moreover have "map fst (sessions ex_store) = [''s1'', ''s2'']" by (simp add: ex_store_def)
  ultimately show ?thesis using ok g s(2) ex_lookup(1) by simp
qed

text \<open>
  C8. The sweep removes exactly the expired records, keeps every other record unchanged
  and in order, and returns the number of records it removed; a second sweep at the same
  instant removes nothing and leaves the store as it is.
\<close>

theorem cleanup_removes_exactly_expired:
  assumes "wf_store st"
  shows "fst (cleanup now st) = expired_count st now \<and>
         sessions (snd (cleanup now st)) = filter (\<lambda>e. \<not> isExpired st now (snd e)) (sessions st) \<and>
         length (sessions st) = length (sessions (snd (cleanup now st))) + fst (cleanup now st) \<and>
         (\<forall>k. map_of (sessions (snd (cleanup now st))) k =
                (case map_of (sessions st) k of None \<Rightarrow> None
                 | Some s \<Rightarrow> if isExpired st now s then None else Some s)) \<and>
         cleanup now (snd (cleanup now st)) = (0, snd (cleanup now st))"
proof (intro conjI allI)
  show "fst (cleanup now st) = expired_count st now"
    using assms by (simp add: cleanup_eq expired_count_def)
  show "sessions (snd (cleanup now st)) = filter (\<lambda>e. \<not> isExpired st now (snd e)) (sessions st)"
    using assms by (simp add: cleanup_eq expired_entry_def)
  show "length (sessions st) = length (sessions (snd (cleanup now st))) + fst (cleanup now st)"
    using assms sum_length_filter_compl [of "expired_entry st now" "sessions st"]
    by (simp add: cleanup_eq)
  show "map_of (sessions (snd (cleanup now st))) k =
          (case map_of (sessions st) k of None \<Rightarrow> None
           | Some s \<Rightarrow> if isExpired st now s then None else Some s)" for k
    using assms by (rule cleanup_lookup)
  show "cleanup now (snd (cleanup now st)) = (0, snd (cleanup now st))"
    using wf_cleanup [OF assms, of now] assms
    by (simp add: cleanup_eq [of "snd (cleanup now st)"]) (simp add: cleanup_eq)
qed

theorem cleanup_removes_exactly_expired_witness:
  "fst (cleanup 1200 ex_store) = 1 \<and>
   sessions (snd (cleanup 1200 ex_store)) = [(''s2'', ex_open)] \<and>
   cleanup 1200 (snd (cleanup 1200 ex_store)) = (0, snd (cleanup 1200 ex_store))"
proof -
  have e: "expired_count ex_store 1200 = 1"
    by (simp add: expired_count_def expired_entry_def isExpired_def
          ex_store_def ex_owned_def ex_open_def)
  have f: "filter (\<lambda>e. \<not> isExpired ex_store 1200 (snd e)) (sessions ex_store) = [(''s2'', ex_open)]"
    by (simp add: isExpired_def ex_store_def ex_owned_def ex_open_def)
  from cleanup_removes_exactly_expired [OF ex_wf, of 1200] e f
  show ?thesis by simp
qed




text \<open>
  C10. Whenever get, update or delete raises \<open>UserIdMismatchError\<close>, the store after the
  call is the store before it: no record evicted or removed, no field merged, no
  \<open>lastModified\<close> refreshed.
\<close>

theorem mismatch_leaves_store_unchanged:
  "(fst (get sessionId uid now st) = Inl (UserIdMismatchError x)
      \<longrightarrow> snd (get sessionId uid now st) = st) \<and>
   (fst (update sessionId updates uid now st) = Inl (UserIdMismatchError x)
      \<longrightarrow> snd (update sessionId updates uid now st) = st) \<and>
   (fst (delete sessionId uid now st) = Inl (UserIdMismatchError x)
      \<longrightarrow> snd (delete sessionId uid now st) = st)"
proof (intro conjI impI)
  assume "fst (get sessionId uid now st) = Inl (UserIdMismatchError x)"
  then show "snd (get sessionId uid now st) = st"
    by (rule get_mismatch_state)
next
  assume a: "fst (update sessionId updates uid now st) = Inl (UserIdMismatchError x)"
  obtain r st' where g: "get sessionId uid now st = (r, st')"
    by (cases "get sessionId uid now st")
  from a g have "r = Inl (UserIdMismatchError x)"
    by (auto simp: update_def split: sum.splits option.splits)
  with g get_mismatch_state [of sessionId uid now st] have "st' = st" by simp
  with a g show "snd (update sessionId updates uid now st) = st"
    by (auto simp: update_def split: sum.splits option.splits)
next
  assume a: "fst (delete sessionId uid now st) = Inl (UserIdMismatchError x)"
  obtain r st' where g: "get sessionId uid now st = (r, st')"
    by (cases "get sessionId uid now st")
  from a g have "r = Inl (UserIdMismatchError x)"
    by (auto simp: delete_def split: sum.splits option.splits)
  with g get_mismatch_state [of sessionId uid now st] have "st' = st" by simp
  with a g show "snd (delete sessionId uid now st) = st"
    by (auto simp: delete_def split: sum.splits option.splits)
qed

theorem mismatch_leaves_store_unchanged_witness:
  "fst (get ''s1'' (Some ''u2'') 500 ex_store) = Inl (UserIdMismatchError ''s1'') \<and>
   snd (get ''s1'' (Some ''u2'') 500 ex_store) = ex_store \<and>
   fst (update ''s1'' ex_updates None 500 ex_store) = Inl (UserIdMismatchError ''s1'') \<and>
   snd (update ''s1'' ex_updates None 500 ex_store) = ex_store \<and>
   fst (delete ''s1'' (Some ''u2'') 500 ex_store) = Inl (UserIdMismatchError ''s1'') \<and>
   snd (delete ''s1'' (Some ''u2'') 500 ex_store) = ex_store"
proof -
  have g: "fst (get ''s1'' (Some ''u2'') 500 ex_store) = Inl (UserIdMismatchError ''s1'')"
    and u: "fst (update ''s1'' ex_updates None 500 ex_store) = Inl (UserIdMismatchError ''s1'')"
    and d: "fst (delete ''s1'' (Some ''u2'') 500 ex_store) = Inl (UserIdMismatchError ''s1'')"
    by (simp_all add: get_def update_def delete_def ex_lookup ex_expiry validateUserId_def)
       (simp_all add: ex_owned_def)
  from mismatch_leaves_store_unchanged [of "''s1''" "Some ''u2''" 500 ex_store "''s1''" ex_updates]
       mismatch_leaves_store_unchanged [of "''s1''" None 500 ex_store "''s1''" ex_updates]
       g u d
  show ?thesis by blast
qed

end
